theory Spec2Isabelle
  imports Main "HOL-Library.Sublist" "HOL-Library.Monad_Syntax"
begin

section \<open>JavaScript values\<close>

text \<open>
  The primitive values that reach the factories of \<^verbatim>\<open>index.js\<close>: a display name, an
  option of the options bag, an amount. A number is modelled as an integer, the demo
  using no other; \<open>JUndefined\<close> is an omitted argument or a missing property.
\<close>

datatype jsval = JUndefined | JNull | JBool bool | JNum int | JStr string

text \<open>ToBoolean: what \<^verbatim>\<open>a || b\<close> tests.\<close>

fun truthy :: "jsval \<Rightarrow> bool" where
  "truthy JUndefined = False"
| "truthy JNull = False"
| "truthy (JBool b) = b"
| "truthy (JNum n) = (n \<noteq> 0)"
| "truthy (JStr s) = (s \<noteq> [])"

text \<open>\<^verbatim>\<open>a || b\<close> on values (both operands of the source are side-effect free).\<close>

definition js_or :: "jsval \<Rightarrow> jsval \<Rightarrow> jsval" where
  "js_or a b = (if truthy a then a else b)"

definition digit_char :: "nat \<Rightarrow> char" where
  "digit_char d = ''0123456789'' ! (d mod 10)"

fun nat_digits :: "nat \<Rightarrow> string" where
  "nat_digits n = (if n < 10 then [digit_char n] else nat_digits (n div 10) @ [digit_char (n mod 10)])"

declare nat_digits.simps [simp del]

text \<open>\<^verbatim>\<open>Number.isSafeInteger(n)\<close>: the integers a double holds exactly, one by one.\<close>

definition isSafeInteger :: "int \<Rightarrow> bool" where
  "isSafeInteger n = (- 9007199254740991 \<le> n \<and> n \<le> 9007199254740991)"

text \<open>
  \<^verbatim>\<open>String(v)\<close>, which is also what a template literal \<^verbatim>\<open>${v}\<close> inserts. A safe
  integer prints as its plain decimal digits. Beyond the safe range a double prints
  its shortest round-trip digits, and in exponent form from \<open>10^21\<close> on; those numbers
  are outside this model, and the result for them is \<open>None\<close>.
\<close>

fun js_String :: "jsval \<Rightarrow> string option" where
  "js_String JUndefined = Some ''undefined''"
| "js_String JNull = Some ''null''"
| "js_String (JBool b) = Some (if b then ''true'' else ''false'')"
| "js_String (JNum n) =
     (if isSafeInteger n
      then Some (if n < 0 then CHR ''-'' # nat_digits (nat (- n)) else nat_digits (nat n))
      else None)"
| "js_String (JStr s) = Some s"

text \<open>
  \<^verbatim>\<open>s.slice(-4)\<close>: the start index is \<open>max (length s - 4) 0\<close>, so a string shorter
  than four characters is returned whole. Subtraction on \<open>nat\<close> truncates the same way.
\<close>

definition slice_neg4 :: "string \<Rightarrow> string" where
  "slice_neg4 s = drop (length s - 4) s"

text \<open>\<^verbatim>\<open>opts.k\<close> on an options bag: a missing key reads as \<^verbatim>\<open>undefined\<close>.\<close>

type_synonym options = "string \<rightharpoonup> jsval"

definition get_prop :: "options \<Rightarrow> string \<Rightarrow> jsval" where
  "get_prop opts k = (case opts k of None \<Rightarrow> JUndefined | Some v \<Rightarrow> v)"

text \<open>\<^verbatim>\<open>throw new Error(msg)\<close>.\<close>

datatype error = Error string

section \<open>Factory Method: UserFactory\<close>

record participant =
  type :: string
  name :: jsval
  permissions :: "string list"

definition Customer :: "jsval \<Rightarrow> participant" where
  "Customer n = \<lparr>type = ''Customer'', name = n, permissions = [''order'']\<rparr>"

definition DeliveryPartner :: "jsval \<Rightarrow> participant" where
  "DeliveryPartner n = \<lparr>type = ''DeliveryPartner'', name = n, permissions = [''deliver'']\<rparr>"

definition Restaurant :: "jsval \<Rightarrow> participant" where
  "Restaurant n = \<lparr>type = ''Restaurant'', name = n, permissions = [''menu'', ''receive_orders'']\<rparr>"

definition UserFactory_create :: "string \<Rightarrow> jsval \<Rightarrow> error + participant" where
  "UserFactory_create t n =
     (if t = ''Customer'' then Inr (Customer (js_or n (JStr ''Anon Cust'')))
      else if t = ''DeliveryPartner'' then Inr (DeliveryPartner (js_or n (JStr ''Anon Rider'')))
      else if t = ''Restaurant'' then Inr (Restaurant (js_or n (JStr ''Anon Resto'')))
      else Inl (Error ''Unknown type''))"

section \<open>Abstract Factory: PaymentFactory\<close>

text \<open>
  The three payment classes; the constructor argument is the field \<^verbatim>\<open>id\<close>,
  \<^verbatim>\<open>walletId\<close> or \<^verbatim>\<open>cardNo\<close>, and the field \<^verbatim>\<open>method\<close> is fixed by the class.
\<close>

datatype payment = UPI jsval | Wallet jsval | Card jsval

fun method_of :: "payment \<Rightarrow> string" where
  "method_of (UPI i) = ''UPI''"
| "method_of (Wallet w) = ''Wallet''"
| "method_of (Card c) = ''Card''"

fun pay :: "payment \<Rightarrow> jsval \<Rightarrow> string option" where
  "pay (UPI i) amount = do {
     a \<leftarrow> js_String amount;
     s \<leftarrow> js_String i;
     Some (''Paid '' @ a @ '' via UPI ('' @ s @ '')'')
   }"
| "pay (Wallet w) amount = do {
     a \<leftarrow> js_String amount;
     s \<leftarrow> js_String w;
     Some (''Paid '' @ a @ '' via Wallet ('' @ s @ '')'')
   }"
| "pay (Card c) amount = do {
     a \<leftarrow> js_String amount;
     s \<leftarrow> js_String c;
     Some (''Paid '' @ a @ '' via Card (xxxx-'' @ slice_neg4 s @ '')'')
   }"

definition PaymentFactory_create :: "string \<Rightarrow> options \<Rightarrow> error + payment" where
  "PaymentFactory_create family opts =
     (if family = ''UPI'' then Inr (UPI (js_or (get_prop opts ''id'') (JStr ''user@upi'')))
      else if family = ''Wallet'' then Inr (Wallet (js_or (get_prop opts ''walletId'') (JStr ''WALLET123'')))
      else if family = ''Card'' then Inr (Card (js_or (get_prop opts ''cardNo'') (JStr ''4242424242424242'')))
      else Inl (Error ''Unknown payment family''))"

text \<open>The two error kinds, under the names the specification gives them.\<close>

definition UnknownCategory :: error where
  "UnknownCategory = Error ''Unknown type''"

definition UnknownPaymentFamily :: error where
  "UnknownPaymentFamily = Error ''Unknown payment family''"

section \<open>The object store\<close>

text \<open>
  Orders, their topping arrays, the builder and the configuration are mutable objects
  that the program shares by reference, so they live in an explicit store: a list of
  objects, an address being an index into it. \<^verbatim>\<open>new\<close>, an array literal and a
  deep copy allocate at the end of the list; nothing is ever freed. Argument strings
  are immutable values and are stored inline. The arguments of the builder are
  strings, as the page's form fields deliver them.
\<close>

type_synonym addr = nat

record order =
  size' :: "string option"
  toppings :: addr
  notes' :: string
  price :: int

record config =
  currency :: string
  tax :: int
  discount :: int

datatype jsobj =
    OrderObj order
  | ArrayObj "string list"
  | BuilderObj "addr option"
  | ConfigObj config

type_synonym heap = "jsobj list"

definition heap_get :: "heap \<Rightarrow> addr \<Rightarrow> jsobj option" where
  "heap_get h a = (if a < length h then Some (h ! a) else None)"

definition alloc :: "heap \<Rightarrow> jsobj \<Rightarrow> heap \<times> addr" where
  "alloc h ob = (h @ [ob], length h)"

definition get_order :: "heap \<Rightarrow> addr \<Rightarrow> order option" where
  "get_order h a = (case heap_get h a of Some (OrderObj r) \<Rightarrow> Some r | _ \<Rightarrow> None)"

definition get_array :: "heap \<Rightarrow> addr \<Rightarrow> string list option" where
  "get_array h a = (case heap_get h a of Some (ArrayObj xs) \<Rightarrow> Some xs | _ \<Rightarrow> None)"

definition get_config :: "heap \<Rightarrow> addr \<Rightarrow> config option" where
  "get_config h a = (case heap_get h a of Some (ConfigObj c) \<Rightarrow> Some c | _ \<Rightarrow> None)"

text \<open>\<^verbatim>\<open>b.order\<close> of a builder \<open>b\<close>; \<open>None\<close> when there is no such order yet.\<close>

definition builder_order :: "heap \<Rightarrow> addr \<Rightarrow> addr option" where
  "builder_order h b = (case heap_get h b of Some (BuilderObj (Some a)) \<Rightarrow> Some a | _ \<Rightarrow> None)"

text \<open>\<^verbatim>\<open>arr.push(v)\<close>.\<close>

definition Array_push :: "heap \<Rightarrow> addr \<Rightarrow> string \<Rightarrow> heap option" where
  "Array_push h a v = do { xs \<leftarrow> get_array h a; Some (h[a := ArrayObj (xs @ [v])]) }"

text \<open>
  A deep copy of the object at an address: every object reachable from it is
  allocated anew. This is what both \<^verbatim>\<open>JSON.parse(JSON.stringify(x))\<close> and
  \<^verbatim>\<open>structuredClone(x)\<close> return on the records of this program, whose leaves are
  strings, \<^verbatim>\<open>null\<close> and integers (the copy being a plain object is not visible in
  the fields).
\<close>

definition copy_array :: "heap \<Rightarrow> addr \<Rightarrow> (heap \<times> addr) option" where
  "copy_array h a = do { xs \<leftarrow> get_array h a; Some (alloc h (ArrayObj xs)) }"

definition copy_order :: "heap \<Rightarrow> addr \<Rightarrow> (heap \<times> addr) option" where
  "copy_order h a = do {
     r \<leftarrow> get_order h a;
     (h1, arr) \<leftarrow> copy_array h (toppings r);
     Some (alloc h1 (OrderObj (r\<lparr>toppings := arr\<rparr>)))
   }"

definition deep_copy :: "heap \<Rightarrow> addr \<Rightarrow> (heap \<times> addr) option" where
  "deep_copy h a =
     (case heap_get h a of
        None \<Rightarrow> None
      | Some (OrderObj r) \<Rightarrow> copy_order h a
      | Some (ArrayObj xs) \<Rightarrow> copy_array h a
      | Some (ConfigObj c) \<Rightarrow> Some (alloc h (ConfigObj c))
      | Some (BuilderObj None) \<Rightarrow> Some (alloc h (BuilderObj None))
      | Some (BuilderObj (Some ord)) \<Rightarrow>
          do { (h1, ord1) \<leftarrow> copy_order h ord; Some (alloc h1 (BuilderObj (Some ord1))) })"

definition JSON_parse_stringify :: "heap \<Rightarrow> addr \<Rightarrow> (heap \<times> addr) option" where
  "JSON_parse_stringify h a = deep_copy h a"

definition structuredClone :: "heap \<Rightarrow> addr \<Rightarrow> (heap \<times> addr) option" where
  "structuredClone h a = deep_copy h a"

section \<open>Builder: OrderBuilder\<close>

text \<open>\<^verbatim>\<open>new Order()\<close>: the object and its empty topping array.\<close>

definition Order_new :: "heap \<Rightarrow> heap \<times> addr" where
  "Order_new h =
     (let (h1, arr) = alloc h (ArrayObj [])
      in alloc h1 (OrderObj \<lparr>size' = None, toppings = arr, notes' = [], price = 0\<rparr>))"

text \<open>
  The methods of the builder at address \<open>b\<close>. Each returns the store and \<^verbatim>\<open>this\<close>,
  so that calls chain; \<open>None\<close> stands for a reference that does not lead to an object
  of the expected class, which no run of the program produces.
\<close>

definition reset :: "heap \<Rightarrow> addr \<Rightarrow> (heap \<times> addr) option" where
  "reset h b =
     (case heap_get h b of
        Some (BuilderObj _) \<Rightarrow>
          (let (h1, ord) = Order_new h in Some (h1[b := BuilderObj (Some ord)], b))
      | _ \<Rightarrow> None)"

definition OrderBuilder_new :: "heap \<Rightarrow> (heap \<times> addr) option" where
  "OrderBuilder_new h = (let (h1, b) = alloc h (BuilderObj None) in reset h1 b)"

definition size_price :: "string \<Rightarrow> int" where
  "size_price s = (if s = ''Extra Large'' then 300 else if s = ''Large'' then 200 else 120)"

definition setSize :: "heap \<Rightarrow> addr \<Rightarrow> string \<Rightarrow> (heap \<times> addr) option" where
  "setSize h b s = do {
     ord \<leftarrow> builder_order h b;
     r \<leftarrow> get_order h ord;
     let h1 = h[ord := OrderObj (r\<lparr>size' := Some s\<rparr>)];
     r1 \<leftarrow> get_order h1 ord;
     Some (h1[ord := OrderObj (r1\<lparr>price := price r1 + size_price s\<rparr>)], b)
   }"

definition addTopping :: "heap \<Rightarrow> addr \<Rightarrow> string \<Rightarrow> (heap \<times> addr) option" where
  "addTopping h b t = do {
     ord \<leftarrow> builder_order h b;
     r \<leftarrow> get_order h ord;
     h1 \<leftarrow> Array_push h (toppings r) t;
     r1 \<leftarrow> get_order h1 ord;
     Some (h1[ord := OrderObj (r1\<lparr>price := price r1 + 30\<rparr>)], b)
   }"

definition setNotes :: "heap \<Rightarrow> addr \<Rightarrow> string \<Rightarrow> (heap \<times> addr) option" where
  "setNotes h b n = do {
     ord \<leftarrow> builder_order h b;
     r \<leftarrow> get_order h ord;
     Some (h[ord := OrderObj (r\<lparr>notes' := n\<rparr>)], b)
   }"

definition build :: "heap \<Rightarrow> addr \<Rightarrow> (heap \<times> addr) option" where
  "build h b = do {
     ord \<leftarrow> builder_order h b;
     (h1, finished) \<leftarrow> JSON_parse_stringify h ord;
     (h2, _) \<leftarrow> reset h1 b;
     Some (h2, finished)
   }"

section \<open>Prototype: clone orders\<close>

text \<open>
  The first argument says whether \<^verbatim>\<open>typeof structuredClone === 'function'\<close> holds in
  the host.
\<close>

definition clone :: "bool \<Rightarrow> heap \<Rightarrow> addr \<Rightarrow> (heap \<times> addr) option" where
  "clone has_structuredClone h ob =
     (if has_structuredClone then structuredClone h ob else JSON_parse_stringify h ob)"

text \<open>
  The handler of the page that modifies a clone:
  \<^verbatim>\<open>lastClone.toppings.push('Extra Cheese'); lastClone.price += 30\<close>.
\<close>

definition modifyClone :: "heap \<Rightarrow> addr \<Rightarrow> heap option" where
  "modifyClone h c = do {
     r \<leftarrow> get_order h c;
     h1 \<leftarrow> Array_push h (toppings r) ''Extra Cheese'';
     r1 \<leftarrow> get_order h1 c;
     Some (h1[c := OrderObj (r1\<lparr>price := price r1 + 30\<rparr>)])
   }"

text \<open>
  What an observer reads through a reference to an order: its fields, the topping
  array by content. Two orders are deeply equal when their views are equal.
\<close>

record order_view =
  v_size :: "string option"
  v_toppings :: "string list"
  v_notes :: string
  v_price :: int

definition view_order :: "heap \<Rightarrow> addr \<Rightarrow> order_view option" where
  "view_order h a = do {
     r \<leftarrow> get_order h a;
     xs \<leftarrow> get_array h (toppings r);
     Some \<lparr>v_size = size' r, v_toppings = xs, v_notes = notes' r, v_price = price r\<rparr>
   }"

text \<open>The cells an order occupies: the object and its topping array.\<close>

definition footprint :: "heap \<Rightarrow> addr \<Rightarrow> addr set" where
  "footprint h a = (case get_order h a of None \<Rightarrow> {a} | Some r \<Rightarrow> {a, toppings r})"

section \<open>Singleton: AppConfig\<close>

text \<open>
  The static property \<^verbatim>\<open>AppConfig._instance\<close> is a global beside the store;
  \<open>None\<close> is \<^verbatim>\<open>undefined\<close>.
\<close>

record js_state =
  heap :: heap
  AppConfig_instance :: "addr option"

text \<open>
  \<^verbatim>\<open>new AppConfig()\<close>. When an instance exists the constructor returns it; the
  object that \<^verbatim>\<open>new\<close> had prepared is dropped unreferenced and is left out of the store.
\<close>

definition AppConfig_new :: "js_state \<Rightarrow> js_state \<times> addr" where
  "AppConfig_new st =
     (case AppConfig_instance st of
        Some a \<Rightarrow> (st, a)
      | None \<Rightarrow>
          (let (h1, this) = alloc (heap st) (ConfigObj \<lparr>currency = ''INR'', tax = 5, discount = 10\<rparr>)
           in (st\<lparr>heap := h1, AppConfig_instance := Some this\<rparr>, this)))"

definition getInstance :: "js_state \<Rightarrow> js_state \<times> addr option" where
  "getInstance st =
     (let st1 = (if AppConfig_instance st = None
                 then (let (st', a) = AppConfig_new st in st'\<lparr>AppConfig_instance := Some a\<rparr>)
                 else st)
      in (st1, AppConfig_instance st1))"

definition toggleCurrency :: "js_state \<Rightarrow> addr \<Rightarrow> js_state option" where
  "toggleCurrency st this = do {
     c \<leftarrow> get_config (heap st) this;
     Some (st\<lparr>heap := (heap st)[this := ConfigObj (c\<lparr>currency := (if currency c = ''INR'' then ''USD'' else ''INR'')\<rparr>)]\<rparr>)
   }"

definition toString :: "js_state \<Rightarrow> addr \<Rightarrow> string option" where
  "toString st this = do {
     c \<leftarrow> get_config (heap st) this;
     t \<leftarrow> js_String (JNum (tax c));
     d \<leftarrow> js_String (JNum (discount c));
     Some (''Currency='' @ currency c @ '', Tax='' @ t @ ''%, Discount='' @ d @ ''%'')
   }"

text \<open>The state in which the script starts: an empty store and no instance.\<close>

definition init_state :: js_state where
  "init_state = \<lparr>heap = [], AppConfig_instance = None\<rparr>"

section \<open>Observations on the store\<close>

text \<open>
  What the holder of a builder reads through it: the view of its current order. A
  builder is well formed when that view exists, as it does from the constructor on.
\<close>

definition builder_view :: "heap \<Rightarrow> addr \<Rightarrow> order_view option" where
  "builder_view h b = do { ord \<leftarrow> builder_order h b; view_order h ord }"

definition wf_builder :: "heap \<Rightarrow> addr \<Rightarrow> bool" where
  "wf_builder h b = (builder_view h b \<noteq> None)"

text \<open>The fresh order of \<^verbatim>\<open>new Order()\<close>.\<close>

definition idle_view :: order_view where
  "idle_view = \<lparr>v_size = None, v_toppings = [], v_notes = [], v_price = 0\<rparr>"

text \<open>
  The builder \<open>b\<close> (its own cell, its current order and that order's array) and
  the order at \<open>snap\<close> have no cell in common.
\<close>

definition separate :: "heap \<Rightarrow> addr \<Rightarrow> addr \<Rightarrow> bool" where
  "separate h b snap =
     (case builder_order h b of
        None \<Rightarrow> False
      | Some ord \<Rightarrow> ({b} \<union> footprint h ord) \<inter> footprint h snap = {})"

text \<open>A sequence of method calls on one builder; the returned references are dropped.\<close>

datatype builder_op = Reset | SetSize string | AddTopping string | SetNotes string | Build

fun apply_op :: "heap \<Rightarrow> addr \<Rightarrow> builder_op \<Rightarrow> heap option" where
  "apply_op h b Reset = map_option fst (reset h b)"
| "apply_op h b (SetSize s) = map_option fst (setSize h b s)"
| "apply_op h b (AddTopping t) = map_option fst (addTopping h b t)"
| "apply_op h b (SetNotes n) = map_option fst (setNotes h b n)"
| "apply_op h b Build = map_option fst (build h b)"

fun run_ops :: "heap \<Rightarrow> addr \<Rightarrow> builder_op list \<Rightarrow> heap option" where
  "run_ops h b [] = Some h"
| "run_ops h b (x # xs) = (case apply_op h b x of None \<Rightarrow> None | Some h1 \<Rightarrow> run_ops h1 b xs)"

section \<open>Observations on the configuration\<close>

text \<open>
  The addresses of the store that hold a configuration object, in increasing order,
  and the invariant of the singleton: the store holds no configuration object but
  the one \<^verbatim>\<open>AppConfig._instance\<close> refers to.
\<close>

definition is_config :: "jsobj \<Rightarrow> bool" where
  "is_config ob = (case ob of ConfigObj _ \<Rightarrow> True | _ \<Rightarrow> False)"

definition config_addrs :: "heap \<Rightarrow> addr list" where
  "config_addrs h = filter (\<lambda>a. is_config (h ! a)) [0..<length h]"

definition single_config :: "js_state \<Rightarrow> bool" where
  "single_config st =
     (config_addrs (heap st) = (case AppConfig_instance st of None \<Rightarrow> [] | Some a \<Rightarrow> [a]))"

text \<open>
  A run of the configuration's operations, collecting every reference that
  \<^verbatim>\<open>getInstance()\<close> and \<^verbatim>\<open>new AppConfig()\<close> return.
\<close>

datatype config_op = GetInstance | NewAppConfig | ToggleCurrency addr

fun apply_config_op :: "js_state \<Rightarrow> config_op \<Rightarrow> (js_state \<times> addr list) option" where
  "apply_config_op st GetInstance =
     (let (st1, r) = getInstance st in Some (st1, (case r of None \<Rightarrow> [] | Some a \<Rightarrow> [a])))"
| "apply_config_op st NewAppConfig = (let (st1, a) = AppConfig_new st in Some (st1, [a]))"
| "apply_config_op st (ToggleCurrency a) = map_option (\<lambda>st1. (st1, [])) (toggleCurrency st a)"

fun run_config :: "js_state \<Rightarrow> config_op list \<Rightarrow> (js_state \<times> addr list) option" where
  "run_config st [] = Some (st, [])"
| "run_config st (x # xs) =
     (case apply_config_op st x of
        None \<Rightarrow> None
      | Some (st1, rs) \<Rightarrow>
          (case run_config st1 xs of None \<Rightarrow> None | Some (st2, rs2) \<Rightarrow> Some (st2, rs @ rs2)))"

section \<open>Store lemmas\<close>

lemma view_orderI:
  assumes "a < length h" "h ! a = OrderObj r" "toppings r < length h" "h ! toppings r = ArrayObj xs"
  shows "view_order h a = Some \<lparr>v_size = size' r, v_toppings = xs, v_notes = notes' r, v_price = price r\<rparr>"
  using assms by (simp add: view_order_def get_order_def get_array_def heap_get_def)

lemma view_orderE:
  assumes "view_order h a = Some v"
  obtains r xs where "a < length h" "h ! a = OrderObj r" "toppings r < length h"
    "h ! toppings r = ArrayObj xs"
    "v = \<lparr>v_size = size' r, v_toppings = xs, v_notes = notes' r, v_price = price r\<rparr>"
  using assms
  by (auto simp: view_order_def get_order_def get_array_def heap_get_def
      split: Option.bind_splits option.splits jsobj.splits if_splits)

lemma builder_viewI:
  assumes "b < length h" "h ! b = BuilderObj (Some ord)" "view_order h ord = Some v"
  shows "builder_view h b = Some v"
  using assms by (simp add: builder_view_def builder_order_def heap_get_def)

lemma builder_viewE:
  assumes "builder_view h b = Some v"
  obtains ord where "b < length h" "h ! b = BuilderObj (Some ord)" "view_order h ord = Some v"
  using assms
  by (auto simp: builder_view_def builder_order_def heap_get_def
      split: Option.bind_splits option.splits jsobj.splits if_splits)

lemma setSize_cells:
  assumes "b < length h" "h ! b = BuilderObj (Some ord)" "ord < length h" "h ! ord = OrderObj r"
  shows "setSize h b s =
    Some (h[ord := OrderObj (r\<lparr>size' := Some s, price := price r + size_price s\<rparr>)], b)"
  using assms by (simp add: setSize_def builder_order_def get_order_def heap_get_def)

lemma setNotes_cells:
  assumes "b < length h" "h ! b = BuilderObj (Some ord)" "ord < length h" "h ! ord = OrderObj r"
  shows "setNotes h b n = Some (h[ord := OrderObj (r\<lparr>notes' := n\<rparr>)], b)"
  using assms by (simp add: setNotes_def builder_order_def get_order_def heap_get_def)

lemma addTopping_cells:
  assumes "b < length h" "h ! b = BuilderObj (Some ord)" "ord < length h" "h ! ord = OrderObj r"
    "toppings r < length h" "h ! toppings r = ArrayObj xs"
  shows "addTopping h b t =
    Some (h[toppings r := ArrayObj (xs @ [t]), ord := OrderObj (r\<lparr>price := price r + 30\<rparr>)], b)"
proof -
  have "toppings r \<noteq> ord" using assms by auto
  then show ?thesis using assms
    by (simp add: addTopping_def builder_order_def get_order_def get_array_def Array_push_def heap_get_def)
qed

lemma reset_cells:
  assumes "b < length h" "h ! b = BuilderObj x"
  shows "reset h b =
    Some ((h @ [ArrayObj [], OrderObj \<lparr>size' = None, toppings = length h, notes' = [], price = 0\<rparr>])
            [b := BuilderObj (Some (Suc (length h)))], b)"
  using assms by (simp add: reset_def Order_new_def alloc_def heap_get_def)

lemma build_cells:
  assumes "b < length h" "h ! b = BuilderObj (Some ord)" "ord < length h" "h ! ord = OrderObj r"
    "toppings r < length h" "h ! toppings r = ArrayObj xs"
  shows "build h b =
    Some ((h @ [ArrayObj xs, OrderObj (r\<lparr>toppings := length h\<rparr>), ArrayObj [],
                OrderObj \<lparr>size' = None, toppings = Suc (Suc (length h)), notes' = [], price = 0\<rparr>])
            [b := BuilderObj (Some (Suc (Suc (Suc (length h)))))], Suc (length h))"
  using assms
  by (simp add: build_def JSON_parse_stringify_def deep_copy_def copy_order_def copy_array_def
      reset_def Order_new_def alloc_def builder_order_def get_order_def get_array_def heap_get_def
      nth_append)


lemma separateI:
  assumes "b < length h" "h ! b = BuilderObj (Some ord)" "ord < length h" "h ! ord = OrderObj r"
    "snap < length h" "h ! snap = OrderObj sr" "{b, ord, toppings r} \<inter> {snap, toppings sr} = {}"
  shows "separate h b snap"
  using assms
  by (simp add: separate_def builder_order_def footprint_def get_order_def heap_get_def)

lemma separateD:
  assumes "separate h b snap" "b < length h" "h ! b = BuilderObj (Some ord)" "ord < length h"
    "h ! ord = OrderObj r" "snap < length h" "h ! snap = OrderObj sr"
  shows "{b, ord, toppings r} \<inter> {snap, toppings sr} = {}"
  using assms
  by (simp add: separate_def builder_order_def footprint_def get_order_def heap_get_def)

lemma apply_op_frame:
  assumes bv: "builder_view h b = Some bv" and sv: "view_order h snap = Some v"
    and sep: "separate h b snap"
  shows "\<exists>h' bv'. apply_op h b x = Some h' \<and> builder_view h' b = Some bv' \<and>
           view_order h' snap = Some v \<and> separate h' b snap"
proof -
  from bv obtain ord where b: "b < length h" "h ! b = BuilderObj (Some ord)"
    and ov: "view_order h ord = Some bv" by (rule builder_viewE)
  from ov obtain r xs where o: "ord < length h" "h ! ord = OrderObj r" "toppings r < length h"
    "h ! toppings r = ArrayObj xs" by (rule view_orderE)
  from sv obtain sr ys where s: "snap < length h" "h ! snap = OrderObj sr" "toppings sr < length h"
    "h ! toppings sr = ArrayObj ys"
    and v: "v = \<lparr>v_size = size' sr, v_toppings = ys, v_notes = notes' sr, v_price = price sr\<rparr>"
    by (rule view_orderE)
  from separateD [OF sep b o(1,2) s(1,2)]
  have d: "b \<noteq> snap" "b \<noteq> toppings sr" "ord \<noteq> snap" "ord \<noteq> toppings sr"
    "toppings r \<noteq> snap" "toppings r \<noteq> toppings sr" by auto
  have d': "b \<noteq> ord" "b \<noteq> toppings r" "ord \<noteq> toppings r" "snap \<noteq> toppings sr"
    using b o s by auto
  show ?thesis
  proof (cases x)
    case Reset
    let ?h = "(h @ [ArrayObj [], OrderObj \<lparr>size' = None, toppings = length h, notes' = [], price = 0\<rparr>])
            [b := BuilderObj (Some (Suc (length h)))]"
    have 1: "apply_op h b x = Some ?h" using Reset reset_cells [OF b] by simp
    have 2: "view_order ?h (Suc (length h)) = Some idle_view"
      using b by (simp add: view_order_def get_order_def get_array_def heap_get_def nth_append idle_view_def)
    have 3: "builder_view ?h b = Some idle_view"
      using b 2 by (intro builder_viewI) simp_all
    have 4: "view_order ?h snap = Some v"
      unfolding v using s d by (intro view_orderI) (simp_all add: nth_append)
    have 5: "separate ?h b snap"
      using b s d
      by (intro separateI [where ord = "Suc (length h)" and sr = sr
            and r = "\<lparr>size' = None, toppings = length h, notes' = [], price = 0\<rparr>"])
         (auto simp: nth_append)
    show ?thesis using 1 3 4 5 by blast
  next
    case (SetSize sz)
    let ?r = "r\<lparr>size' := Some sz, price := price r + size_price sz\<rparr>"
    let ?h = "h[ord := OrderObj ?r]"
    have 1: "apply_op h b x = Some ?h" using SetSize setSize_cells [OF b o(1,2)] by simp
    have 2: "view_order ?h ord = Some \<lparr>v_size = size' ?r, v_toppings = xs, v_notes = notes' ?r, v_price = price ?r\<rparr>"
      using o d' by (intro view_orderI) simp_all
    have 3: "builder_view ?h b = Some \<lparr>v_size = size' ?r, v_toppings = xs, v_notes = notes' ?r, v_price = price ?r\<rparr>"
      using b d' 2 by (intro builder_viewI [where ord = ord]) simp_all
    have 4: "view_order ?h snap = Some v"
      unfolding v using s d by (intro view_orderI) simp_all
    have 5: "separate ?h b snap"
      using b o s d d' by (intro separateI [where ord = ord and sr = sr and r = ?r]) simp_all
    show ?thesis using 1 3 4 5 by blast
  next
    case (AddTopping t)
    let ?r = "r\<lparr>price := price r + 30\<rparr>"
    let ?h = "h[toppings r := ArrayObj (xs @ [t]), ord := OrderObj ?r]"
    have 1: "apply_op h b x = Some ?h" using AddTopping addTopping_cells [OF b o] by simp
    have 2: "view_order ?h ord = Some \<lparr>v_size = size' ?r, v_toppings = xs @ [t], v_notes = notes' ?r, v_price = price ?r\<rparr>"
      using o d' by (intro view_orderI) simp_all
    have 3: "builder_view ?h b = Some \<lparr>v_size = size' ?r, v_toppings = xs @ [t], v_notes = notes' ?r, v_price = price ?r\<rparr>"
      using b d' 2 by (intro builder_viewI [where ord = ord]) simp_all
    have 4: "view_order ?h snap = Some v"
      unfolding v using s d by (intro view_orderI) simp_all
    have 5: "separate ?h b snap"
      using b o s d d' by (intro separateI [where ord = ord and sr = sr and r = ?r]) simp_all
    show ?thesis using 1 3 4 5 by blast
  next
    case (SetNotes n)
    let ?r = "r\<lparr>notes' := n\<rparr>"
    let ?h = "h[ord := OrderObj ?r]"
    have 1: "apply_op h b x = Some ?h" using SetNotes setNotes_cells [OF b o(1,2)] by simp
    have 2: "view_order ?h ord = Some \<lparr>v_size = size' ?r, v_toppings = xs, v_notes = notes' ?r, v_price = price ?r\<rparr>"
      using o d' by (intro view_orderI) simp_all
    have 3: "builder_view ?h b = Some \<lparr>v_size = size' ?r, v_toppings = xs, v_notes = notes' ?r, v_price = price ?r\<rparr>"
      using b d' 2 by (intro builder_viewI [where ord = ord]) simp_all
    have 4: "view_order ?h snap = Some v"
      unfolding v using s d by (intro view_orderI) simp_all
    have 5: "separate ?h b snap"
      using b o s d d' by (intro separateI [where ord = ord and sr = sr and r = ?r]) simp_all
    show ?thesis using 1 3 4 5 by blast
  next
    case Build
    let ?h = "(h @ [ArrayObj xs, OrderObj (r\<lparr>toppings := length h\<rparr>), ArrayObj [],
                OrderObj \<lparr>size' = None, toppings = Suc (Suc (length h)), notes' = [], price = 0\<rparr>])
            [b := BuilderObj (Some (Suc (Suc (Suc (length h)))))]"
    have 1: "apply_op h b x = Some ?h" using Build build_cells [OF b o] by simp
    have 2: "view_order ?h (Suc (Suc (Suc (length h)))) = Some idle_view"
      using b by (simp add: view_order_def get_order_def get_array_def heap_get_def nth_append idle_view_def)
    have 3: "builder_view ?h b = Some idle_view"
      using b 2 by (intro builder_viewI) simp_all
    have 4: "view_order ?h snap = Some v"
      unfolding v using s d by (intro view_orderI) (simp_all add: nth_append)
    have 5: "separate ?h b snap"
      using b s d
      by (intro separateI [where ord = "Suc (Suc (Suc (length h)))" and sr = sr
            and r = "\<lparr>size' = None, toppings = Suc (Suc (length h)), notes' = [], price = 0\<rparr>"])
         (auto simp: nth_append)
    show ?thesis using 1 3 4 5 by blast
  qed
qed

lemma run_ops_frame:
  assumes "builder_view h b = Some bv" "view_order h snap = Some v" "separate h b snap"
  shows "\<exists>h' bv'. run_ops h b ops = Some h' \<and> builder_view h' b = Some bv' \<and>
           view_order h' snap = Some v \<and> separate h' b snap"
  using assms
proof (induction ops arbitrary: h bv)
  case Nil
  then show ?case by simp
next
  case (Cons x ops)
  from apply_op_frame [OF Cons.prems, of x] obtain h1 bv1 where
    1: "apply_op h b x = Some h1" "builder_view h1 b = Some bv1" "view_order h1 snap = Some v"
       "separate h1 b snap" by blast
  from Cons.IH [OF 1(2,3,4)] 1(1) show ?case by simp
qed

lemma OrderBuilder_new_cells:
  "OrderBuilder_new h =
     Some (h @ [BuilderObj (Some (Suc (Suc (length h)))), ArrayObj [],
                OrderObj \<lparr>size' = None, toppings = Suc (length h), notes' = [], price = 0\<rparr>],
           length h)"
  by (simp add: OrderBuilder_new_def alloc_def reset_def Order_new_def heap_get_def
      list_update_append)

lemma OrderBuilder_new_idle:
  "\<exists>h1. OrderBuilder_new h = Some (h1, length h) \<and> builder_view h1 (length h) = Some idle_view"
  by (simp add: OrderBuilder_new_cells builder_view_def builder_order_def view_order_def
      get_order_def get_array_def heap_get_def nth_append idle_view_def)

lemma apply_op_total:
  assumes bv: "builder_view h b = Some bv"
  shows "\<exists>h' bv'. apply_op h b x = Some h' \<and> builder_view h' b = Some bv'"
proof -
  from bv obtain ord where b: "b < length h" "h ! b = BuilderObj (Some ord)"
    and ov: "view_order h ord = Some bv" by (rule builder_viewE)
  from ov obtain r xs where o: "ord < length h" "h ! ord = OrderObj r" "toppings r < length h"
    "h ! toppings r = ArrayObj xs" by (rule view_orderE)
  have d: "b \<noteq> ord" "b \<noteq> toppings r" "ord \<noteq> toppings r" using b o by auto
  note defs = builder_view_def builder_order_def view_order_def get_order_def get_array_def
    heap_get_def nth_append
  show ?thesis
  proof (cases x)
    case Reset
    then show ?thesis using b by (simp add: reset_cells [OF b] defs)
  next
    case (SetSize s)
    then show ?thesis using b o d by (simp add: setSize_cells [OF b o(1,2)] defs)
  next
    case (AddTopping t)
    then show ?thesis using b o d by (simp add: addTopping_cells [OF b o] defs)
  next
    case (SetNotes n)
    then show ?thesis using b o d by (simp add: setNotes_cells [OF b o(1,2)] defs)
  next
    case Build
    then show ?thesis using b by (simp add: build_cells [OF b o] defs)
  qed
qed

lemma run_ops_total:
  assumes "builder_view h b = Some bv"
  shows "\<exists>h' bv'. run_ops h b ops = Some h' \<and> builder_view h' b = Some bv'"
  using assms
proof (induction ops arbitrary: h bv)
  case Nil
  then show ?case by simp
next
  case (Cons x ops)
  from apply_op_total [OF Cons.prems, of x] obtain h1 bv1 where
    1: "apply_op h b x = Some h1" "builder_view h1 b = Some bv1" by blast
  from Cons.IH [OF 1(2)] 1(1) show ?case by simp
qed

text \<open>Every state that a fresh builder reaches is well formed.\<close>

lemma reachable_wf_builder:
  assumes "OrderBuilder_new h0 = Some (h1, b)" "run_ops h1 b ops = Some h"
  shows "wf_builder h b"
proof -
  from assms(1) OrderBuilder_new_idle [of h0] have "builder_view h1 b = Some idle_view" by auto
  from run_ops_total [OF this, of ops] assms(2) show ?thesis by (auto simp: wf_builder_def)
qed

lemma setSize_view:
  assumes "builder_view h b = Some v"
  shows "\<exists>h1. setSize h b s = Some (h1, b) \<and>
           builder_view h1 b = Some (v\<lparr>v_size := Some s, v_price := v_price v + size_price s\<rparr>)"
proof -
  from assms obtain ord where b: "b < length h" "h ! b = BuilderObj (Some ord)"
    and ov: "view_order h ord = Some v" by (rule builder_viewE)
  from ov obtain r xs where o: "ord < length h" "h ! ord = OrderObj r" "toppings r < length h"
    "h ! toppings r = ArrayObj xs"
    and v: "v = \<lparr>v_size = size' r, v_toppings = xs, v_notes = notes' r, v_price = price r\<rparr>"
    by (rule view_orderE)
  have d: "b \<noteq> ord" "b \<noteq> toppings r" "ord \<noteq> toppings r" using b o by auto
  show ?thesis
    using b o d unfolding v
    by (simp add: setSize_cells [OF b o(1,2)] builder_view_def builder_order_def view_order_def
        get_order_def get_array_def heap_get_def)
qed

lemma clone_cells:
  assumes "s < length h" "h ! s = OrderObj r" "toppings r < length h" "h ! toppings r = ArrayObj xs"
  shows "clone sc h s = Some (h @ [ArrayObj xs, OrderObj (r\<lparr>toppings := length h\<rparr>)], Suc (length h))"
  using assms
  by (simp add: clone_def structuredClone_def JSON_parse_stringify_def deep_copy_def copy_order_def
      copy_array_def alloc_def get_order_def get_array_def heap_get_def)

lemma modifyClone_cells:
  assumes "c < length h" "h ! c = OrderObj r" "toppings r < length h" "h ! toppings r = ArrayObj xs"
  shows "modifyClone h c =
    Some (h[toppings r := ArrayObj (xs @ [''Extra Cheese'']), c := OrderObj (r\<lparr>price := price r + 30\<rparr>)])"
proof -
  have "toppings r \<noteq> c" using assms by auto
  then show ?thesis using assms
    by (simp add: modifyClone_def get_order_def get_array_def Array_push_def heap_get_def)
qed

section \<open>Configuration lemmas\<close>

lemma config_addrs_append:
  "config_addrs (h @ [ob]) = config_addrs h @ (if is_config ob then [length h] else [])"
proof -
  have "filter (\<lambda>a. is_config ((h @ [ob]) ! a)) [0..<length h]
      = filter (\<lambda>a. is_config (h ! a)) [0..<length h]"
    by (rule filter_cong) (simp_all add: nth_append)
  then show ?thesis by (simp add: config_addrs_def)
qed

lemma config_addrs_update:
  assumes "is_config ob = is_config (h ! a)"
  shows "config_addrs (h[a := ob]) = config_addrs h"
proof -
  have "is_config (h[a := ob] ! x) = is_config (h ! x)" if "x < length h" for x
    using that assms by (cases "x = a") simp_all
  then show ?thesis unfolding config_addrs_def by (auto intro!: filter_cong)
qed

lemma getInstance_none:
  assumes "AppConfig_instance st = None"
  shows "getInstance st =
    (st\<lparr>heap := heap st @ [ConfigObj \<lparr>currency = ''INR'', tax = 5, discount = 10\<rparr>],
        AppConfig_instance := Some (length (heap st))\<rparr>, Some (length (heap st)))"
  using assms by (simp add: getInstance_def AppConfig_new_def alloc_def)

lemma AppConfig_new_none:
  assumes "AppConfig_instance st = None"
  shows "AppConfig_new st =
    (st\<lparr>heap := heap st @ [ConfigObj \<lparr>currency = ''INR'', tax = 5, discount = 10\<rparr>],
        AppConfig_instance := Some (length (heap st))\<rparr>, length (heap st))"
  using assms by (simp add: AppConfig_new_def alloc_def)

lemma getInstance_some:
  assumes "AppConfig_instance st = Some a"
  shows "getInstance st = (st, Some a)"
  using assms by (simp add: getInstance_def)

lemma AppConfig_new_some:
  assumes "AppConfig_instance st = Some a"
  shows "AppConfig_new st = (st, a)"
  using assms by (simp add: AppConfig_new_def)

lemma toggleCurrency_cells:
  assumes "toggleCurrency st a = Some st1"
  obtains c where "a < length (heap st)" "heap st ! a = ConfigObj c"
    "st1 = st\<lparr>heap := (heap st)[a := ConfigObj (c\<lparr>currency := (if currency c = ''INR'' then ''USD'' else ''INR'')\<rparr>)]\<rparr>"
  using assms
  by (auto simp: toggleCurrency_def get_config_def heap_get_def
      split: Option.bind_splits option.splits jsobj.splits if_splits)

lemma apply_config_op_single:
  assumes "single_config st" "apply_config_op st x = Some (st1, rs)"
  shows "single_config st1 \<and> (\<forall>r \<in> set rs. AppConfig_instance st1 = Some r) \<and>
         (\<forall>a. AppConfig_instance st = Some a \<longrightarrow> AppConfig_instance st1 = Some a)"
proof (cases x)
  case GetInstance
  show ?thesis
  proof (cases "AppConfig_instance st")
    case None
    with assms GetInstance show ?thesis
      by (auto simp: getInstance_none single_config_def config_addrs_append is_config_def)
  next
    case (Some a)
    with assms GetInstance show ?thesis by (auto simp: getInstance_some)
  qed
next
  case NewAppConfig
  show ?thesis
  proof (cases "AppConfig_instance st")
    case None
    with assms NewAppConfig show ?thesis
      by (auto simp: AppConfig_new_none single_config_def config_addrs_append is_config_def)
  next
    case (Some a)
    with assms NewAppConfig show ?thesis by (auto simp: AppConfig_new_some)
  qed
next
  case (ToggleCurrency a)
  with assms have t: "toggleCurrency st a = Some st1" and rs: "rs = []" by auto
  from t obtain c where "a < length (heap st)" "heap st ! a = ConfigObj c"
    "st1 = st\<lparr>heap := (heap st)[a := ConfigObj (c\<lparr>currency := (if currency c = ''INR'' then ''USD'' else ''INR'')\<rparr>)]\<rparr>"
    by (rule toggleCurrency_cells)
  then show ?thesis using assms(1) rs
    by (simp add: single_config_def config_addrs_update is_config_def)
qed

lemma run_config_single:
  assumes "single_config st" "run_config st ops = Some (st1, rs)"
  shows "single_config st1 \<and> (\<forall>r \<in> set rs. AppConfig_instance st1 = Some r) \<and>
         (\<forall>a. AppConfig_instance st = Some a \<longrightarrow> AppConfig_instance st1 = Some a)"
  using assms
proof (induction ops arbitrary: st st1 rs)
  case Nil
  then show ?case by simp
next
  case (Cons x ops)
  from Cons.prems(2) obtain sa ra sb rb where
    1: "apply_config_op st x = Some (sa, ra)" and 2: "run_config sa ops = Some (sb, rb)"
    and 3: "st1 = sb" "rs = ra @ rb"
    by (auto split: option.splits prod.splits)
  from apply_config_op_single [OF Cons.prems(1) 1]
  have a: "single_config sa" "\<forall>r \<in> set ra. AppConfig_instance sa = Some r"
    "\<forall>a. AppConfig_instance st = Some a \<longrightarrow> AppConfig_instance sa = Some a" by auto
  from Cons.IH [OF a(1) 2]
  have b: "single_config sb" "\<forall>r \<in> set rb. AppConfig_instance sb = Some r"
    "\<forall>a. AppConfig_instance sa = Some a \<longrightarrow> AppConfig_instance sb = Some a" by auto
  show ?case using a b 3 by auto
qed

lemma toggleCurrency_eq:
  assumes "get_config (heap st) a = Some c"
  shows "toggleCurrency st a =
    Some (st\<lparr>heap := (heap st)[a := ConfigObj (c\<lparr>currency := (if currency c = ''INR'' then ''USD'' else ''INR'')\<rparr>)]\<rparr>)"
  using assms by (simp add: toggleCurrency_def)

section \<open>The order assembler\<close>

text \<open>
  C1. On a builder fresh from \<^verbatim>\<open>new OrderBuilder()\<close>, in any store, the chain
  \<^verbatim>\<open>reset().setSize('Large').addTopping('Olives').addTopping('Cheese').build()\<close>
  returns an order that reads size Large, toppings Olives and Cheese, empty notes and
  price 260.
\<close>

theorem chained_build_example:
  "do { (h0, b) \<leftarrow> OrderBuilder_new h;
        (h1, b1) \<leftarrow> reset h0 b;
        (h2, b2) \<leftarrow> setSize h1 b1 ''Large'';
        (h3, b3) \<leftarrow> addTopping h2 b2 ''Olives'';
        (h4, b4) \<leftarrow> addTopping h3 b3 ''Cheese'';
        (h5, snap) \<leftarrow> build h4 b4;
        view_order h5 snap }
   = Some \<lparr>v_size = Some ''Large'', v_toppings = [''Olives'', ''Cheese''], v_notes = [], v_price = 260\<rparr>"
  by (simp add: OrderBuilder_new_cells reset_def Order_new_def alloc_def setSize_def addTopping_def
      Array_push_def build_def JSON_parse_stringify_def deep_copy_def copy_order_def copy_array_def
      builder_order_def get_order_def get_array_def heap_get_def view_order_def size_price_def
      nth_append list_update_append)

text \<open>
  C2. On a well-formed builder, \<^verbatim>\<open>setSize(s)\<close> succeeds for every string \<open>s\<close>, sets
  the size to \<open>s\<close> and adds to the price 300 when \<open>s\<close> is \<^verbatim>\<open>'Extra Large'\<close> (the
  extra-large size as the page spells it), 200 when it is \<^verbatim>\<open>'Large'\<close> and 120 for any
  other string; toppings and notes stay. A second call adds its base price on top of
  the first.
\<close>

theorem setSize_adds_base_price:
  assumes "builder_view h b = Some v"
  shows "\<exists>h1 h2. setSize h b s = Some (h1, b) \<and>
           builder_view h1 b = Some (v\<lparr>v_size := Some s, v_price := v_price v +
             (if s = ''Extra Large'' then 300 else if s = ''Large'' then 200 else 120)\<rparr>) \<and>
           setSize h1 b s2 = Some (h2, b) \<and>
           builder_view h2 b = Some (v\<lparr>v_size := Some s2,
             v_price := v_price v + size_price s + size_price s2\<rparr>)"
proof -
  from assms obtain ord where b: "b < length h" "h ! b = BuilderObj (Some ord)"
    and ov: "view_order h ord = Some v" by (rule builder_viewE)
  from ov obtain r xs where o: "ord < length h" "h ! ord = OrderObj r" "toppings r < length h"
    "h ! toppings r = ArrayObj xs"
    and v: "v = \<lparr>v_size = size' r, v_toppings = xs, v_notes = notes' r, v_price = price r\<rparr>"
    by (rule view_orderE)
  have d: "b \<noteq> ord" "b \<noteq> toppings r" "ord \<noteq> toppings r" using b o by auto
  let ?r1 = "r\<lparr>size' := Some s, price := price r + size_price s\<rparr>"
  let ?h1 = "h[ord := OrderObj ?r1]"
  let ?r2 = "?r1\<lparr>size' := Some s2, price := price ?r1 + size_price s2\<rparr>"
  let ?h2 = "?h1[ord := OrderObj ?r2]"
  have 1: "setSize h b s = Some (?h1, b)" by (rule setSize_cells [OF b o(1,2)])
  have b1: "b < length ?h1" "?h1 ! b = BuilderObj (Some ord)" using b d by simp_all
  have o1: "ord < length ?h1" "?h1 ! ord = OrderObj ?r1" using o by simp_all
  have 2: "setSize ?h1 b s2 = Some (?h2, b)" by (rule setSize_cells [OF b1 o1])
  have 3: "builder_view ?h1 b = Some (v\<lparr>v_size := Some s, v_price := v_price v + size_price s\<rparr>)"
    using b o d unfolding v
    by (simp add: builder_view_def builder_order_def view_order_def get_order_def get_array_def
        heap_get_def)
  have 4: "builder_view ?h2 b = Some (v\<lparr>v_size := Some s2,
             v_price := v_price v + size_price s + size_price s2\<rparr>)"
    using b o d unfolding v
    by (simp add: builder_view_def builder_order_def view_order_def get_order_def get_array_def
        heap_get_def)
  from 3 have 5: "builder_view ?h1 b = Some (v\<lparr>v_size := Some s, v_price := v_price v +
             (if s = ''Extra Large'' then 300 else if s = ''Large'' then 200 else 120)\<rparr>)"
    by (simp only: size_price_def)
  show ?thesis using 1 2 5 4 by blast
qed

theorem setSize_adds_base_price_witness:
  "OrderBuilder_new []
     = Some ([BuilderObj (Some 2), ArrayObj [], OrderObj \<lparr>size' = None, toppings = 1, notes' = [], price = 0\<rparr>], 0) \<and>
   builder_view [BuilderObj (Some 2), ArrayObj [], OrderObj \<lparr>size' = None, toppings = 1, notes' = [], price = 0\<rparr>] 0
     = Some idle_view \<and>
   (\<exists>h1 h2. setSize [BuilderObj (Some 2), ArrayObj [], OrderObj \<lparr>size' = None, toppings = 1, notes' = [], price = 0\<rparr>] 0 ''Large'' = Some (h1, 0) \<and>
      setSize h1 0 ''Extra Large'' = Some (h2, 0) \<and>
      builder_view h2 0 = Some \<lparr>v_size = Some ''Extra Large'', v_toppings = [], v_notes = [], v_price = 500\<rparr>)"
proof -
  have h: "builder_view [BuilderObj (Some 2), ArrayObj [], OrderObj \<lparr>size' = None, toppings = 1, notes' = [], price = 0\<rparr>] 0
     = Some idle_view"
    by (simp add: builder_view_def builder_order_def view_order_def get_order_def get_array_def
        heap_get_def idle_view_def)
  have n: "OrderBuilder_new []
     = Some ([BuilderObj (Some 2), ArrayObj [], OrderObj \<lparr>size' = None, toppings = 1, notes' = [], price = 0\<rparr>], 0)"
    by (simp add: OrderBuilder_new_cells)
  from setSize_adds_base_price [OF h, of "''Large''" "''Extra Large''"]
  show ?thesis using h n by (auto simp: size_price_def idle_view_def)
qed

text \<open>
  C5. On a well-formed builder whose current order reads \<open>v\<close>, \<^verbatim>\<open>build()\<close>
  succeeds and returns an order that reads \<open>v\<close>, made of cells allocated by the call
  and sharing none with the builder; the builder is left with a fresh order (no size,
  no toppings, empty notes, price 0). Whatever methods are called on the builder
  afterwards, they succeed and the returned order still reads \<open>v\<close>; a write to a
  cell of the returned order leaves the builder's fresh order as it is.
\<close>

theorem build_snapshot_independent:
  assumes "builder_view h b = Some v"
  shows "\<exists>h1 snap. build h b = Some (h1, snap) \<and>
           view_order h1 snap = Some v \<and>
           (\<forall>a \<in> footprint h1 snap. length h \<le> a) \<and>
           separate h1 b snap \<and>
           builder_view h1 b = Some idle_view \<and>
           (\<forall>a \<in> footprint h1 snap. \<forall>ob. builder_view (h1[a := ob]) b = Some idle_view) \<and>
           (\<forall>ops. \<exists>h2. run_ops h1 b ops = Some h2 \<and> wf_builder h2 b \<and>
                      view_order h2 snap = Some v)"
proof -
  from assms obtain ord where b: "b < length h" "h ! b = BuilderObj (Some ord)"
    and ov: "view_order h ord = Some v" by (rule builder_viewE)
  from ov obtain r xs where o: "ord < length h" "h ! ord = OrderObj r" "toppings r < length h"
    "h ! toppings r = ArrayObj xs"
    and v: "v = \<lparr>v_size = size' r, v_toppings = xs, v_notes = notes' r, v_price = price r\<rparr>"
    by (rule view_orderE)
  let ?h1 = "(h @ [ArrayObj xs, OrderObj (r\<lparr>toppings := length h\<rparr>), ArrayObj [],
                OrderObj \<lparr>size' = None, toppings = Suc (Suc (length h)), notes' = [], price = 0\<rparr>])
            [b := BuilderObj (Some (Suc (Suc (Suc (length h)))))]"
  let ?snap = "Suc (length h)"
  note defs = builder_view_def builder_order_def view_order_def get_order_def get_array_def
    heap_get_def nth_append
  have 1: "build h b = Some (?h1, ?snap)" by (rule build_cells [OF b o])
  have 2: "view_order ?h1 ?snap = Some v" using b unfolding v by (simp add: defs)
  have 3: "\<forall>a \<in> footprint ?h1 ?snap. length h \<le> a"
    using b by (simp add: footprint_def defs)
  have 4: "separate ?h1 b ?snap"
    using b by (simp add: separate_def footprint_def defs)
  have 5: "builder_view ?h1 b = Some idle_view" using b by (simp add: defs idle_view_def)
  have 6: "\<exists>h2. run_ops ?h1 b ops = Some h2 \<and> wf_builder h2 b \<and> view_order h2 ?snap = Some v"
    for ops
    using run_ops_frame [OF 5 2 4, of ops] by (auto simp: wf_builder_def)
  have fs: "footprint ?h1 ?snap = {?snap, length h}" using b by (simp add: footprint_def defs)
  have 7: "\<forall>a \<in> footprint ?h1 ?snap. \<forall>ob. builder_view (?h1[a := ob]) b = Some idle_view"
    unfolding fs using b by (auto simp: defs idle_view_def nth_list_update)
  show ?thesis using 1 2 3 4 5 6 7 by blast
qed

theorem build_snapshot_independent_witness:
  "(case OrderBuilder_new [] of None \<Rightarrow> None
    | Some (h0, b) \<Rightarrow> run_ops h0 b [SetSize ''Large'', AddTopping ''Olives''])
     = Some [BuilderObj (Some 2), ArrayObj [''Olives''],
         OrderObj \<lparr>size' = Some ''Large'', toppings = 1, notes' = [], price = 230\<rparr>] \<and>
   builder_view [BuilderObj (Some 2), ArrayObj [''Olives''],
       OrderObj \<lparr>size' = Some ''Large'', toppings = 1, notes' = [], price = 230\<rparr>] 0
     = Some \<lparr>v_size = Some ''Large'', v_toppings = [''Olives''], v_notes = [], v_price = 230\<rparr> \<and>
   (\<exists>h1 snap h2.
      build [BuilderObj (Some 2), ArrayObj [''Olives''],
        OrderObj \<lparr>size' = Some ''Large'', toppings = 1, notes' = [], price = 230\<rparr>] 0 = Some (h1, snap) \<and>
      view_order h1 snap
        = Some \<lparr>v_size = Some ''Large'', v_toppings = [''Olives''], v_notes = [], v_price = 230\<rparr> \<and>
      run_ops h1 0 [SetSize ''Medium'', AddTopping ''Corn'', Build, AddTopping ''Cheese''] = Some h2 \<and>
      view_order h2 snap
        = Some \<lparr>v_size = Some ''Large'', v_toppings = [''Olives''], v_notes = [], v_price = 230\<rparr>)"
proof -
  let ?h = "[BuilderObj (Some 2), ArrayObj [''Olives''],
       OrderObj \<lparr>size' = Some ''Large'', toppings = 1, notes' = [], price = 230\<rparr>]"
  let ?v = "\<lparr>v_size = Some ''Large'', v_toppings = [''Olives''], v_notes = [], v_price = 230\<rparr>"
  have h: "builder_view ?h 0 = Some ?v"
    by (simp add: builder_view_def builder_order_def view_order_def get_order_def get_array_def
        heap_get_def)
  from build_snapshot_independent [OF h] obtain h1 snap where
    1: "build ?h 0 = Some (h1, snap)" "view_order h1 snap = Some ?v"
    and 2: "\<forall>ops. \<exists>h2. run_ops h1 0 ops = Some h2 \<and> wf_builder h2 0 \<and> view_order h2 snap = Some ?v"
    by blast
  from 2 obtain h2 where
    3: "run_ops h1 0 [SetSize ''Medium'', AddTopping ''Corn'', Build, AddTopping ''Cheese''] = Some h2"
      "view_order h2 snap = Some ?v" by blast
  have n: "(case OrderBuilder_new [] of None \<Rightarrow> None
    | Some (h0, b) \<Rightarrow> run_ops h0 b [SetSize ''Large'', AddTopping ''Olives'']) = Some ?h"
    by (simp add: OrderBuilder_new_cells setSize_def addTopping_def Array_push_def builder_order_def
        get_order_def get_array_def heap_get_def size_price_def)
  show ?thesis using n h 1 3 by blast
qed

section \<open>The record cloner\<close>

text \<open>
  C6. For every order \<open>s\<close> of the store that reads \<open>v\<close>, \<^verbatim>\<open>clone(s)\<close> succeeds,
  with or without \<^verbatim>\<open>structuredClone\<close> in the host, leaves the store it found as it
  was and returns an order that reads \<open>v\<close> too, in new cells that it shares with
  nothing. A write to any cell of the clone leaves \<open>s\<close> reading \<open>v\<close>, a write to any
  cell of \<open>s\<close> leaves the clone reading \<open>v\<close>; so does the page's own modification
  (a topping pushed, 30 added to the price) on either side.
\<close>

theorem clone_independent:
  assumes "view_order h s = Some v"
  shows "\<exists>h1 c. clone sc h s = Some (h1, c) \<and>
           view_order h1 c = Some v \<and> view_order h1 s = Some v \<and>
           take (length h) h1 = h \<and>
           (\<forall>a \<in> footprint h1 c. length h \<le> a) \<and>
           footprint h1 c \<inter> footprint h1 s = {} \<and>
           (\<forall>a \<in> footprint h1 c. \<forall>ob. view_order (h1[a := ob]) s = Some v) \<and>
           (\<forall>a \<in> footprint h1 s. \<forall>ob. view_order (h1[a := ob]) c = Some v) \<and>
           (\<exists>h2. modifyClone h1 c = Some h2 \<and> view_order h2 s = Some v \<and>
              view_order h2 c = Some (v\<lparr>v_toppings := v_toppings v @ [''Extra Cheese''],
                                         v_price := v_price v + 30\<rparr>)) \<and>
           (\<exists>h3. modifyClone h1 s = Some h3 \<and> view_order h3 c = Some v)"
proof -
  from assms obtain r xs where s: "s < length h" "h ! s = OrderObj r" "toppings r < length h"
    "h ! toppings r = ArrayObj xs"
    and v: "v = \<lparr>v_size = size' r, v_toppings = xs, v_notes = notes' r, v_price = price r\<rparr>"
    by (rule view_orderE)
  have d: "s \<noteq> toppings r" using s by auto
  let ?rc = "r\<lparr>toppings := length h\<rparr>"
  let ?h1 = "h @ [ArrayObj xs, OrderObj ?rc]"
  let ?c = "Suc (length h)"
  note defs = view_order_def get_order_def get_array_def heap_get_def nth_append
  have 1: "clone sc h s = Some (?h1, ?c)" by (rule clone_cells [OF s])
  have 2: "view_order ?h1 ?c = Some v" unfolding v by (simp add: defs)
  have 3: "view_order ?h1 s = Some v" using s unfolding v by (simp add: defs)
  have 4: "take (length h) ?h1 = h" by simp
  have fc: "footprint ?h1 ?c = {?c, length h}" by (simp add: footprint_def defs)
  have fs: "footprint ?h1 s = {s, toppings r}" using s by (simp add: footprint_def defs)
  have 5: "\<forall>a \<in> footprint ?h1 ?c. length h \<le> a" unfolding fc by simp
  have 6: "footprint ?h1 ?c \<inter> footprint ?h1 s = {}" unfolding fc fs using s by auto
  have 7: "\<forall>a \<in> footprint ?h1 ?c. \<forall>ob. view_order (?h1[a := ob]) s = Some v"
    unfolding fc v using s by (auto simp: defs nth_list_update)
  have 8: "\<forall>a \<in> footprint ?h1 s. \<forall>ob. view_order (?h1[a := ob]) ?c = Some v"
    unfolding fs v using s by (auto simp: defs nth_list_update)
  let ?h2 = "?h1[length h := ArrayObj (xs @ [''Extra Cheese'']), ?c := OrderObj (?rc\<lparr>price := price ?rc + 30\<rparr>)]"
  have "modifyClone ?h1 ?c = Some ?h2"
    using modifyClone_cells [of ?c ?h1 ?rc xs] by (simp add: nth_append)
  moreover have "view_order ?h2 s = Some v" using s unfolding v by (simp add: defs)
  moreover have "view_order ?h2 ?c = Some (v\<lparr>v_toppings := v_toppings v @ [''Extra Cheese''],
                                         v_price := v_price v + 30\<rparr>)"
    unfolding v by (simp add: defs)
  ultimately have 9: "\<exists>h2. modifyClone ?h1 ?c = Some h2 \<and> view_order h2 s = Some v \<and>
              view_order h2 ?c = Some (v\<lparr>v_toppings := v_toppings v @ [''Extra Cheese''],
                                         v_price := v_price v + 30\<rparr>)" by blast
  let ?h3 = "?h1[toppings r := ArrayObj (xs @ [''Extra Cheese'']), s := OrderObj (r\<lparr>price := price r + 30\<rparr>)]"
  have "modifyClone ?h1 s = Some ?h3"
    using modifyClone_cells [of s ?h1 r xs] s by (simp add: nth_append)
  moreover have "view_order ?h3 ?c = Some v" using s unfolding v by (simp add: defs)
  ultimately have 10: "\<exists>h3. modifyClone ?h1 s = Some h3 \<and> view_order h3 ?c = Some v" by blast
  show ?thesis using 1 2 3 4 5 6 7 8 9 10 by blast
qed

theorem clone_independent_witness:
  "view_order [ArrayObj [''Olives''],
       OrderObj \<lparr>size' = Some ''Large'', toppings = 0, notes' = [], price = 230\<rparr>] 1
     = Some \<lparr>v_size = Some ''Large'', v_toppings = [''Olives''], v_notes = [], v_price = 230\<rparr> \<and>
   (\<exists>h1 c h2.
      clone True [ArrayObj [''Olives''],
        OrderObj \<lparr>size' = Some ''Large'', toppings = 0, notes' = [], price = 230\<rparr>] 1 = Some (h1, c) \<and>
      view_order h1 c
        = Some \<lparr>v_size = Some ''Large'', v_toppings = [''Olives''], v_notes = [], v_price = 230\<rparr> \<and>
      modifyClone h1 c = Some h2 \<and>
      view_order h2 c
        = Some \<lparr>v_size = Some ''Large'', v_toppings = [''Olives'', ''Extra Cheese''], v_notes = [], v_price = 260\<rparr> \<and>
      view_order h2 1
        = Some \<lparr>v_size = Some ''Large'', v_toppings = [''Olives''], v_notes = [], v_price = 230\<rparr>)"
proof -
  let ?h = "[ArrayObj [''Olives''],
       OrderObj \<lparr>size' = Some ''Large'', toppings = 0, notes' = [], price = 230\<rparr>]"
  let ?v = "\<lparr>v_size = Some ''Large'', v_toppings = [''Olives''], v_notes = [], v_price = 230\<rparr>"
  have h: "view_order ?h 1 = Some ?v"
    by (simp add: view_order_def get_order_def get_array_def heap_get_def)
  from clone_independent [OF h, of True] obtain h1 c h2 where
    "clone True ?h 1 = Some (h1, c)" "view_order h1 c = Some ?v"
    "modifyClone h1 c = Some h2" "view_order h2 1 = Some ?v"
    "view_order h2 c = Some (?v\<lparr>v_toppings := v_toppings ?v @ [''Extra Cheese''], v_price := v_price ?v + 30\<rparr>)"
    by blast
  then show ?thesis using h by auto
qed

section \<open>The shared configuration\<close>

text \<open>
  C7. The first \<^verbatim>\<open>getInstance()\<close> creates the configuration with currency INR, tax
  5 and discount 10; once an instance exists, \<^verbatim>\<open>getInstance()\<close> and
  \<^verbatim>\<open>new AppConfig()\<close> both return its address and change nothing. After any run
  of \<^verbatim>\<open>getInstance\<close>, \<^verbatim>\<open>new AppConfig\<close> and \<^verbatim>\<open>toggleCurrency\<close> from the initial
  state, the store holds exactly the one configuration object that
  \<^verbatim>\<open>AppConfig._instance\<close> refers to, and every reference the run returned is that
  address: a mutation through one is read through every other.
\<close>

theorem shared_config_single_instance:
  "getInstance init_state =
     (\<lparr>heap = [ConfigObj \<lparr>currency = ''INR'', tax = 5, discount = 10\<rparr>], AppConfig_instance = Some 0\<rparr>,
      Some 0) \<and>
   (AppConfig_instance st = None \<longrightarrow>
      getInstance st =
        (st\<lparr>heap := heap st @ [ConfigObj \<lparr>currency = ''INR'', tax = 5, discount = 10\<rparr>],
            AppConfig_instance := Some (length (heap st))\<rparr>, Some (length (heap st)))) \<and>
   (\<forall>a. AppConfig_instance st = Some a \<longrightarrow>
      getInstance st = (st, Some a) \<and> AppConfig_new st = (st, a)) \<and>
   (\<forall>st1 refs. run_config init_state ops = Some (st1, refs) \<longrightarrow>
      single_config st1 \<and>
      (\<forall>r \<in> set refs. AppConfig_instance st1 = Some r) \<and>
      (\<forall>r1 \<in> set refs. \<forall>r2 \<in> set refs. r1 = r2))"
proof -
  have 1: "getInstance init_state =
     (\<lparr>heap = [ConfigObj \<lparr>currency = ''INR'', tax = 5, discount = 10\<rparr>], AppConfig_instance = Some 0\<rparr>,
      Some 0)"
    by (simp add: init_state_def getInstance_def AppConfig_new_def alloc_def)
  have 0: "single_config init_state"
    by (simp add: single_config_def init_state_def config_addrs_def)
  have 4: "single_config st1 \<and> (\<forall>r \<in> set refs. AppConfig_instance st1 = Some r) \<and>
      (\<forall>r1 \<in> set refs. \<forall>r2 \<in> set refs. r1 = r2)"
    if "run_config init_state ops = Some (st1, refs)" for st1 refs
  proof -
    from run_config_single [OF 0 that]
    have a: "single_config st1" and b: "\<forall>r \<in> set refs. AppConfig_instance st1 = Some r"
      by blast+
    from b have "\<forall>r1 \<in> set refs. \<forall>r2 \<in> set refs. r1 = r2" by (metis option.inject)
    with a b show ?thesis by blast
  qed
  show ?thesis using 1 4 by (simp add: getInstance_none getInstance_some AppConfig_new_some)
qed

theorem shared_config_single_instance_witness:
  "run_config init_state [GetInstance, ToggleCurrency 0, NewAppConfig, GetInstance] =
     Some (\<lparr>heap = [ConfigObj \<lparr>currency = ''USD'', tax = 5, discount = 10\<rparr>], AppConfig_instance = Some 0\<rparr>,
           [0, 0, 0]) \<and>
   single_config \<lparr>heap = [ConfigObj \<lparr>currency = ''USD'', tax = 5, discount = 10\<rparr>], AppConfig_instance = Some 0\<rparr>"
proof -
  have r: "run_config init_state [GetInstance, ToggleCurrency 0, NewAppConfig, GetInstance] =
     Some (\<lparr>heap = [ConfigObj \<lparr>currency = ''USD'', tax = 5, discount = 10\<rparr>], AppConfig_instance = Some 0\<rparr>,
           [0, 0, 0])"
    by (simp add: init_state_def getInstance_def AppConfig_new_def alloc_def toggleCurrency_def
        get_config_def heap_get_def)
  with shared_config_single_instance [of init_state "[GetInstance, ToggleCurrency 0, NewAppConfig, GetInstance]"]
  show ?thesis by simp
qed

text \<open>
  C9. On a configuration whose currency is INR or USD, \<^verbatim>\<open>toggleCurrency()\<close>
  succeeds and sets the currency to the other of the two; a second call restores the
  whole state.
\<close>

theorem toggleCurrency_involution:
  assumes "get_config (heap st) a = Some c" "currency c = ''INR'' \<or> currency c = ''USD''"
  shows "\<exists>st1. toggleCurrency st a = Some st1 \<and>
           map_option currency (get_config (heap st1) a)
             = Some (if currency c = ''INR'' then ''USD'' else ''INR'') \<and>
           map_option currency (get_config (heap st1) a) \<noteq> Some (currency c) \<and>
           toggleCurrency st1 a = Some st"
proof -
  from assms(1) have a: "a < length (heap st)" "heap st ! a = ConfigObj c"
    by (auto simp: get_config_def heap_get_def split: option.splits jsobj.splits if_splits)
  let ?c1 = "c\<lparr>currency := (if currency c = ''INR'' then ''USD'' else ''INR'')\<rparr>"
  let ?st1 = "st\<lparr>heap := (heap st)[a := ConfigObj ?c1]\<rparr>"
  have 1: "toggleCurrency st a = Some ?st1"
    using a by (simp add: toggleCurrency_def get_config_def heap_get_def)
  have 2: "get_config (heap ?st1) a = Some ?c1"
    using a by (simp add: get_config_def heap_get_def)
  have restore: "?c1\<lparr>currency := (if currency ?c1 = ''INR'' then ''USD'' else ''INR'')\<rparr> = c"
    using assms(2) by (cases c) auto
  have same: "(heap st)[a := ConfigObj c] = heap st" using a by (metis list_update_id)
  have "toggleCurrency ?st1 a =
      Some (?st1\<lparr>heap := (heap ?st1)[a := ConfigObj
        (?c1\<lparr>currency := (if currency ?c1 = ''INR'' then ''USD'' else ''INR'')\<rparr>)]\<rparr>)"
    by (rule toggleCurrency_eq [OF 2])
  then have "toggleCurrency ?st1 a = Some (?st1\<lparr>heap := (heap ?st1)[a := ConfigObj c]\<rparr>)"
    by (simp only: restore)
  then have 3: "toggleCurrency ?st1 a = Some st" by (simp add: same)
  show ?thesis using 1 2 3 assms(2) by auto
qed

theorem toggleCurrency_involution_witness:
  "get_config (heap \<lparr>heap = [ConfigObj \<lparr>currency = ''INR'', tax = 5, discount = 10\<rparr>], AppConfig_instance = Some 0\<rparr>) 0
     = Some \<lparr>currency = ''INR'', tax = 5, discount = 10\<rparr> \<and>
   (\<exists>st1. toggleCurrency \<lparr>heap = [ConfigObj \<lparr>currency = ''INR'', tax = 5, discount = 10\<rparr>], AppConfig_instance = Some 0\<rparr> 0 = Some st1 \<and>
      map_option currency (get_config (heap st1) 0) = Some ''USD'' \<and>
      toggleCurrency st1 0
        = Some \<lparr>heap = [ConfigObj \<lparr>currency = ''INR'', tax = 5, discount = 10\<rparr>], AppConfig_instance = Some 0\<rparr>)"
proof -
  let ?st = "\<lparr>heap = [ConfigObj \<lparr>currency = ''INR'', tax = 5, discount = 10\<rparr>], AppConfig_instance = Some 0\<rparr>"
  let ?c = "\<lparr>currency = ''INR'', tax = 5, discount = 10\<rparr>"
  have h: "get_config (heap ?st) 0 = Some ?c" by (simp add: get_config_def heap_get_def)
  have c: "currency ?c = ''INR'' \<or> currency ?c = ''USD''" by simp
  from toggleCurrency_involution [OF h c] obtain st1 where
    "toggleCurrency ?st 0 = Some st1"
    "map_option currency (get_config (heap st1) 0) = Some ''USD''"
    "toggleCurrency st1 0 = Some ?st" by auto
  then show ?thesis using h by blast
qed

text \<open>
  C10. Once \<^verbatim>\<open>AppConfig._instance\<close> is set, \<^verbatim>\<open>new AppConfig()\<close> returns it and
  leaves the state as it was: the defaults are not applied again, so currency, tax and
  discount read as before (USD after a toggle, not INR).
\<close>

theorem constructor_keeps_settings:
  assumes "AppConfig_instance st = Some a"
  shows "AppConfig_new st = (st, a) \<and>
         heap (fst (AppConfig_new st)) = heap st \<and>
         get_config (heap (fst (AppConfig_new st))) a = get_config (heap st) a"
  using assms by (simp add: AppConfig_new_def)

theorem constructor_keeps_settings_witness:
  "toggleCurrency (fst (getInstance init_state)) 0
     = Some \<lparr>heap = [ConfigObj \<lparr>currency = ''USD'', tax = 5, discount = 10\<rparr>], AppConfig_instance = Some 0\<rparr> \<and>
   AppConfig_new \<lparr>heap = [ConfigObj \<lparr>currency = ''USD'', tax = 5, discount = 10\<rparr>], AppConfig_instance = Some 0\<rparr>
     = (\<lparr>heap = [ConfigObj \<lparr>currency = ''USD'', tax = 5, discount = 10\<rparr>], AppConfig_instance = Some 0\<rparr>, 0) \<and>
   get_config (heap (fst (AppConfig_new
       \<lparr>heap = [ConfigObj \<lparr>currency = ''USD'', tax = 5, discount = 10\<rparr>], AppConfig_instance = Some 0\<rparr>))) 0
     = Some \<lparr>currency = ''USD'', tax = 5, discount = 10\<rparr>"
proof -
  let ?s2 = "\<lparr>heap = [ConfigObj \<lparr>currency = ''USD'', tax = 5, discount = 10\<rparr>], AppConfig_instance = Some 0\<rparr>"
  have t: "toggleCurrency (fst (getInstance init_state)) 0 = Some ?s2"
    by (simp add: init_state_def getInstance_def AppConfig_new_def alloc_def toggleCurrency_def
        get_config_def heap_get_def)
  have i: "AppConfig_instance ?s2 = Some 0" by simp
  from constructor_keeps_settings [OF i] t show ?thesis
    by (simp add: get_config_def heap_get_def)
qed

section \<open>The factories\<close>

text \<open>
  C8. \<^verbatim>\<open>UserFactory.create\<close> gives a Customer the permissions
  \<^verbatim>\<open>['order']\<close>, a DeliveryPartner \<^verbatim>\<open>['deliver']\<close> and a Restaurant
  \<^verbatim>\<open>['menu','receive_orders']\<close>, whatever the name. The name is \<^verbatim>\<open>name || default\<close>:
  an omitted name becomes Anon Cust, Anon Rider or Anon Resto, a non-empty string is
  kept.
\<close>

theorem UserFactory_create_permissions:
  "UserFactory_create ''Customer'' n =
     Inr \<lparr>type = ''Customer'', name = js_or n (JStr ''Anon Cust''), permissions = [''order'']\<rparr> \<and>
   UserFactory_create ''DeliveryPartner'' n =
     Inr \<lparr>type = ''DeliveryPartner'', name = js_or n (JStr ''Anon Rider''), permissions = [''deliver'']\<rparr> \<and>
   UserFactory_create ''Restaurant'' n =
     Inr \<lparr>type = ''Restaurant'', name = js_or n (JStr ''Anon Resto''),
          permissions = [''menu'', ''receive_orders'']\<rparr> \<and>
   UserFactory_create ''Customer'' JUndefined =
     Inr \<lparr>type = ''Customer'', name = JStr ''Anon Cust'', permissions = [''order'']\<rparr> \<and>
   UserFactory_create ''DeliveryPartner'' JUndefined =
     Inr \<lparr>type = ''DeliveryPartner'', name = JStr ''Anon Rider'', permissions = [''deliver'']\<rparr> \<and>
   UserFactory_create ''Restaurant'' JUndefined =
     Inr \<lparr>type = ''Restaurant'', name = JStr ''Anon Resto'',
          permissions = [''menu'', ''receive_orders'']\<rparr> \<and>
   js_or (JStr (c # cs)) d = JStr (c # cs)"
  by (simp add: UserFactory_create_def Customer_def DeliveryPartner_def Restaurant_def js_or_def)

text \<open>
  C4. \<^verbatim>\<open>UserFactory.create\<close> returns the error \<^verbatim>\<open>Unknown type\<close> exactly when the
  tag is none of Customer, DeliveryPartner, Restaurant, and returns a record exactly
  when it is one of them; \<^verbatim>\<open>PaymentFactory.create\<close> likewise with
  \<^verbatim>\<open>Unknown payment family\<close> and UPI, Wallet, Card, whatever the options bag holds.
  An empty options bag gives the defaults, and \<^verbatim>\<open>setSize\<close> on a well-formed builder
  succeeds for every string, an unrecognised size adding 120.
\<close>

theorem factory_errors:
  "(UserFactory_create t n = Inl UnknownCategory)
      = (t \<notin> {''Customer'', ''DeliveryPartner'', ''Restaurant''}) \<and>
   (\<exists>p. UserFactory_create t n = Inr p)
      = (t \<in> {''Customer'', ''DeliveryPartner'', ''Restaurant''}) \<and>
   (PaymentFactory_create f opts = Inl UnknownPaymentFamily)
      = (f \<notin> {''UPI'', ''Wallet'', ''Card''}) \<and>
   (\<exists>p. PaymentFactory_create f opts = Inr p)
      = (f \<in> {''UPI'', ''Wallet'', ''Card''}) \<and>
   PaymentFactory_create ''UPI'' Map.empty = Inr (UPI (JStr ''user@upi'')) \<and>
   PaymentFactory_create ''Wallet'' Map.empty = Inr (Wallet (JStr ''WALLET123'')) \<and>
   PaymentFactory_create ''Card'' Map.empty = Inr (Card (JStr ''4242424242424242'')) \<and>
   (builder_view h b = Some v \<longrightarrow>
      (\<exists>h1. setSize h b s = Some (h1, b) \<and>
         (s \<notin> {''Extra Large'', ''Large''} \<longrightarrow>
            builder_view h1 b = Some (v\<lparr>v_size := Some s, v_price := v_price v + 120\<rparr>))))"
proof -
  have 1: "(UserFactory_create t n = Inl UnknownCategory)
      = (t \<notin> {''Customer'', ''DeliveryPartner'', ''Restaurant''})"
    by (simp add: UserFactory_create_def UnknownCategory_def)
  have 2: "(\<exists>p. UserFactory_create t n = Inr p)
      = (t \<in> {''Customer'', ''DeliveryPartner'', ''Restaurant''})"
    by (simp add: UserFactory_create_def)
  have 3: "(PaymentFactory_create f opts = Inl UnknownPaymentFamily)
      = (f \<notin> {''UPI'', ''Wallet'', ''Card''})"
    by (simp add: PaymentFactory_create_def UnknownPaymentFamily_def)
  have 4: "(\<exists>p. PaymentFactory_create f opts = Inr p)
      = (f \<in> {''UPI'', ''Wallet'', ''Card''})"
    by (simp add: PaymentFactory_create_def)
  have 5: "PaymentFactory_create ''UPI'' Map.empty = Inr (UPI (JStr ''user@upi''))"
    "PaymentFactory_create ''Wallet'' Map.empty = Inr (Wallet (JStr ''WALLET123''))"
    "PaymentFactory_create ''Card'' Map.empty = Inr (Card (JStr ''4242424242424242''))"
    by (simp_all add: PaymentFactory_create_def get_prop_def js_or_def)
  have 6: "\<exists>h1. setSize h b s = Some (h1, b) \<and>
         (s \<notin> {''Extra Large'', ''Large''} \<longrightarrow>
            builder_view h1 b = Some (v\<lparr>v_size := Some s, v_price := v_price v + 120\<rparr>))"
    if "builder_view h b = Some v"
    using setSize_view [OF that, of s] by (auto simp: size_price_def)
  show ?thesis using 1 2 3 4 5 6 by blast
qed

theorem factory_errors_witness:
  "UserFactory_create ''Alien'' JUndefined = Inl UnknownCategory \<and>
   PaymentFactory_create ''Bogus'' Map.empty = Inl UnknownPaymentFamily \<and>
   builder_view [BuilderObj (Some 2), ArrayObj [],
       OrderObj \<lparr>size' = None, toppings = 1, notes' = [], price = 0\<rparr>] 0 = Some idle_view \<and>
   (\<exists>h1. setSize [BuilderObj (Some 2), ArrayObj [],
       OrderObj \<lparr>size' = None, toppings = 1, notes' = [], price = 0\<rparr>] 0 ''Huge'' = Some (h1, 0) \<and>
      builder_view h1 0 = Some \<lparr>v_size = Some ''Huge'', v_toppings = [], v_notes = [], v_price = 120\<rparr>)"
proof -
  let ?h = "[BuilderObj (Some 2), ArrayObj [],
       OrderObj \<lparr>size' = None, toppings = 1, notes' = [], price = 0\<rparr>]"
  have h: "builder_view ?h 0 = Some idle_view"
    by (simp add: builder_view_def builder_order_def view_order_def get_order_def get_array_def
        heap_get_def idle_view_def)
  from factory_errors [of "''Alien''" JUndefined "''Bogus''" Map.empty ?h 0 idle_view "''Huge''"] h
  show ?thesis by (simp add: idle_view_def)
qed

text \<open>
  C3. The key the card number travels under is spelled \<^verbatim>\<open>cardNo\<close> in the code, as
  \<^verbatim>\<open>charge\<close> is spelled \<^verbatim>\<open>pay\<close>. For every options bag
  \<^verbatim>\<open>PaymentFactory.create\<close> reads \<^verbatim>\<open>id\<close> for UPI, \<^verbatim>\<open>walletId\<close> for Wallet and
  the card number's key for Card: without the key the default (\<^verbatim>\<open>user@upi\<close>,
  \<^verbatim>\<open>WALLET123\<close>, \<^verbatim>\<open>4242424242424242\<close>) is used, a value under the key that counts as
  true is used as it is. The card made from the number \<^verbatim>\<open>4242424242424242\<close> gives, for
  199, a receipt that contains \<^verbatim>\<open>xxxx-4242\<close>. The receipt of any card is
  \<^verbatim>\<open>xxxx-\<close> and what the string form of the number has after all but its last four
  characters are dropped: four characters when it has at least four.
\<close>

theorem PaymentFactory_create_reads_options:
  "PaymentFactory_create ''UPI'' (opts(''id'' := None)) = Inr (UPI (JStr ''user@upi'')) \<and>
   PaymentFactory_create ''Wallet'' (opts(''walletId'' := None)) = Inr (Wallet (JStr ''WALLET123'')) \<and>
   PaymentFactory_create ''Card'' (opts(''cardNo'' := None)) = Inr (Card (JStr ''4242424242424242'')) \<and>
   (truthy v \<longrightarrow>
      PaymentFactory_create ''UPI'' (opts(''id'' \<mapsto> v)) = Inr (UPI v) \<and>
      PaymentFactory_create ''Wallet'' (opts(''walletId'' \<mapsto> v)) = Inr (Wallet v) \<and>
      PaymentFactory_create ''Card'' (opts(''cardNo'' \<mapsto> v)) = Inr (Card v)) \<and>
   PaymentFactory_create ''Card'' [''cardNo'' \<mapsto> JStr ''4242424242424242'']
     = Inr (Card (JStr ''4242424242424242'')) \<and>
   (\<exists>r. pay (Card (JStr ''4242424242424242'')) (JNum 199) = Some r \<and> sublist ''xxxx-4242'' r) \<and>
   (js_String amount = Some a \<and> js_String n = Some s \<longrightarrow>
      pay (Card n) amount
        = Some (''Paid '' @ a @ '' via Card (xxxx-'' @ drop (length s - 4) s @ '')'') \<and>
      take (length s - 4) s @ drop (length s - 4) s = s \<and>
      length (drop (length s - 4) s) = min 4 (length s) \<and>
      (4 \<le> length s \<longrightarrow> length (drop (length s - 4) s) = 4))"
proof -
  have 1: "PaymentFactory_create ''UPI'' (opts(''id'' := None)) = Inr (UPI (JStr ''user@upi''))"
    "PaymentFactory_create ''Wallet'' (opts(''walletId'' := None)) = Inr (Wallet (JStr ''WALLET123''))"
    "PaymentFactory_create ''Card'' (opts(''cardNo'' := None)) = Inr (Card (JStr ''4242424242424242''))"
    by (simp_all add: PaymentFactory_create_def js_or_def get_prop_def)
  have 2: "PaymentFactory_create ''UPI'' (opts(''id'' \<mapsto> v)) = Inr (UPI v) \<and>
      PaymentFactory_create ''Wallet'' (opts(''walletId'' \<mapsto> v)) = Inr (Wallet v) \<and>
      PaymentFactory_create ''Card'' (opts(''cardNo'' \<mapsto> v)) = Inr (Card v)"
    if "truthy v"
    using that by (simp add: PaymentFactory_create_def js_or_def get_prop_def)
  have 3: "PaymentFactory_create ''Card'' [''cardNo'' \<mapsto> JStr ''4242424242424242'']
     = Inr (Card (JStr ''4242424242424242''))"
    by (simp add: PaymentFactory_create_def get_prop_def js_or_def)
  have "pay (Card (JStr ''4242424242424242'')) (JNum 199)
      = Some (''Paid 199 via Card ('' @ ''xxxx-4242'' @ '')'')"
    by (simp add: isSafeInteger_def nat_digits.simps digit_char_def slice_neg4_def)
  then have 4: "\<exists>r. pay (Card (JStr ''4242424242424242'')) (JNum 199) = Some r \<and> sublist ''xxxx-4242'' r"
    unfolding sublist_def by blast
  have 5: "pay (Card n) amount
        = Some (''Paid '' @ a @ '' via Card (xxxx-'' @ drop (length s - 4) s @ '')'') \<and>
      take (length s - 4) s @ drop (length s - 4) s = s \<and>
      length (drop (length s - 4) s) = min 4 (length s) \<and>
      (4 \<le> length s \<longrightarrow> length (drop (length s - 4) s) = 4)"
    if "js_String amount = Some a \<and> js_String n = Some s"
    using that by (auto simp: slice_neg4_def)
  show ?thesis using 1 2 3 4 5 by blast
qed

theorem PaymentFactory_create_reads_options_witness:
  "truthy (JStr ''4242424242424242'') \<and>
   js_String (JNum 199) = Some ''199'' \<and>
   js_String (JStr ''4242424242424242'') = Some ''4242424242424242'' \<and>
   PaymentFactory_create ''Card'' [''cardNo'' \<mapsto> JStr ''4242424242424242'']
     = Inr (Card (JStr ''4242424242424242'')) \<and>
   pay (Card (JStr ''4242424242424242'')) (JNum 199) = Some ''Paid 199 via Card (xxxx-4242)''"
proof -
  have t: "truthy (JStr ''4242424242424242'')" by simp
  have a: "js_String (JNum 199) = Some ''199''"
    by (simp add: isSafeInteger_def nat_digits.simps digit_char_def)
  have n: "js_String (JStr ''4242424242424242'') = Some ''4242424242424242''" by simp
  from PaymentFactory_create_reads_options
    [of Map.empty "JStr ''4242424242424242''" "JNum 199" "''199''" "JStr ''4242424242424242''"
      "''4242424242424242''"] t a n
  show ?thesis by simp
qed

end
